theory Spec2Isabelle
  imports Complex_Main
begin

section \<open>CommClimb: data model\<close>

text \<open>
  The embedding follows \<^verbatim>\<open>types.ts\<close> and the \<^verbatim>\<open>App\<close> component.
  A JavaScript \<^verbatim>\<open>number\<close> is modelled as a real (NaN and the infinities are left out),
  a JavaScript string as a \<^typ>\<open>string\<close> (code units below 256 only), and an optional
  field as an \<^typ>\<open>'a option\<close>.
\<close>

type_synonym number = real

text \<open>
  The value produced by \<^verbatim>\<open>response.json()\<close>. TypeScript's annotations are erased at run
  time, so a variable declared \<^verbatim>\<open>TranscriptSegment[]\<close> holds whatever was parsed.
\<close>

datatype json =
    JNull
  | JBool bool
  | JNum number
  | JStr string
  | JArr "json list"
  | JObj "(string \<times> json) list"

datatype NoteType = ORIGINAL | VIDEO | AUDIO | VERBAL

record User =
  user_id :: string
  email :: string
  user_name :: string

record File =
  file_name :: string
  file_type :: string

record Note =
  note_id :: string
  projectId :: string
  note_type :: NoteType
  timestamp :: number
  transcriptSegmentIndex :: "number option"
  highlightStart :: "number option"
  highlightEnd :: "number option"
  color :: "string option"
  quote :: "string option"
  content :: string
  note_createdAt :: number

record Project =
  project_id :: string
  userId :: string
  project_name :: string
  project_createdAt :: number
  videoFile :: "File option"
  videoUrl :: "string option"
  isTranscribing :: bool
  transcript :: json

section \<open>String helpers of the JavaScript runtime\<close>

text \<open>
  \<^verbatim>\<open>s.split(sep)\<close> for a one-character separator: the pieces between the
  occurrences of the separator, in order; the result is never empty.
\<close>

fun js_split :: "char \<Rightarrow> string \<Rightarrow> string list" where
  "js_split sep [] = [[]]"
| "js_split sep (c # cs) =
     (if c = sep then [] # js_split sep cs
      else (case js_split sep cs of
              [] \<Rightarrow> [[c]]
            | w # ws \<Rightarrow> (c # w) # ws))"

text \<open>
  The white space and line terminator code units that \<^verbatim>\<open>String.prototype.trim\<close>
  strips, as far as they lie below 256: TAB, LF, VT, FF, CR, SPACE and NBSP.
\<close>

definition isWhiteSpace :: "char \<Rightarrow> bool" where
  "isWhiteSpace c = ((of_char c :: nat) \<in> {9, 10, 11, 12, 13, 32, 160})"

definition trim :: "string \<Rightarrow> string" where
  "trim s = rev (dropWhile isWhiteSpace (rev (dropWhile isWhiteSpace s)))"

text \<open>Truthiness of a \<^verbatim>\<open>string | null\<close> value: null and the empty string are falsy.\<close>

fun truthy :: "string option \<Rightarrow> bool" where
  "truthy None = False"
| "truthy (Some s) = (s \<noteq> [])"

section \<open>The key-value store\<close>

text \<open>
  Modelled from the spec: \<^verbatim>\<open>services/storageService\<close> is imported by \<^verbatim>\<open>App\<close> but is
  not among the sources. The spec describes it as a synchronous key-value store of
  serialized records with last-write-wins on saves of the same id, whose
  \<^verbatim>\<open>deleteNote\<close> is a no-op on an absent id, and whose round trip of a project drops
  the transient media handles (\<^verbatim>\<open>videoFile\<close>, \<^verbatim>\<open>videoUrl\<close>).
\<close>

record Store =
  stored_projects :: "Project list"
  stored_notes :: "Note list"

definition persisted :: "Project \<Rightarrow> Project" where
  "persisted p = p\<lparr>videoFile := None, videoUrl := None\<rparr>"

definition Storage_saveProject :: "Project \<Rightarrow> Store \<Rightarrow> Store" where
  "Storage_saveProject p st =
     (if project_id p \<in> set (map project_id (stored_projects st))
      then st\<lparr>stored_projects :=
              map (\<lambda>q. if project_id q = project_id p then persisted p else q) (stored_projects st)\<rparr>
      else st\<lparr>stored_projects := stored_projects st @ [persisted p]\<rparr>)"

definition Storage_deleteProject :: "string \<Rightarrow> Store \<Rightarrow> Store" where
  "Storage_deleteProject i st =
     st\<lparr>stored_projects := filter (\<lambda>q. project_id q \<noteq> i) (stored_projects st)\<rparr>"

definition Storage_getProjects :: "string \<Rightarrow> Store \<Rightarrow> Project list" where
  "Storage_getProjects uid st = filter (\<lambda>q. userId q = uid) (stored_projects st)"

definition Storage_saveNote :: "Note \<Rightarrow> Store \<Rightarrow> Store" where
  "Storage_saveNote n st =
     (if note_id n \<in> set (map note_id (stored_notes st))
      then st\<lparr>stored_notes := map (\<lambda>m. if note_id m = note_id n then n else m) (stored_notes st)\<rparr>
      else st\<lparr>stored_notes := stored_notes st @ [n]\<rparr>)"

definition Storage_deleteNote :: "string \<Rightarrow> Store \<Rightarrow> Store" where
  "Storage_deleteNote i st = st\<lparr>stored_notes := filter (\<lambda>m. note_id m \<noteq> i) (stored_notes st)\<rparr>"

definition Storage_getNotes :: "string \<Rightarrow> Store \<Rightarrow> Note list" where
  "Storage_getNotes pid st = filter (\<lambda>m. projectId m = pid) (stored_notes st)"

section \<open>The state of the App component\<close>

text \<open>
  One field per \<^verbatim>\<open>useState\<close> hook the handlers below read or write, plus what the
  handlers reach outside React: the media element behind \<^verbatim>\<open>videoRef.current\<close>
  (\<open>None\<close> while no element is mounted), the store, the lines written with
  \<^verbatim>\<open>console.error\<close>, and the uploads suspended at their \<^verbatim>\<open>await\<close>. The fields of
  the authentication form (\<^verbatim>\<open>isLogin\<close>, \<^verbatim>\<open>email\<close>, \<^verbatim>\<open>password\<close>) only choose the
  arguments of the store's login and registration, whose outcome is an input here.
\<close>

datatype View = auth | dashboard | project_view

datatype Tab = original | visual | audio | verbal

record Media =
  media_currentTime :: number
  paused :: bool

record App =
  user :: "User option"
  view :: View
  authError :: string
  projects :: "Project list"
  currentProject :: "Project option"
  notes_state :: "Note list"
  uploading :: bool
  editingProjectId :: "string option"
  editName :: string
  videoRef :: "Media option"
  currentTime :: number
  activeTab :: Tab
  storage :: Store
  console :: "string list"
  pending :: "Project list"

text \<open>\<^verbatim>\<open>HTMLMediaElement.pause()\<close>: the element is paused afterwards, its position is kept.\<close>

definition pause :: "Media \<Rightarrow> Media" where
  "pause m = m\<lparr>paused := True\<rparr>"

section \<open>Tabs and playback\<close>

text \<open>The effect with dependency list \<^verbatim>\<open>[activeTab]\<close>.\<close>

definition activeTab_effect :: "App \<Rightarrow> App" where
  "activeTab_effect s =
     (if activeTab s = verbal
      then (case videoRef s of
              None \<Rightarrow> s
            | Some m \<Rightarrow> s\<lparr>videoRef := Some (pause m)\<rparr>)
      else s)"

text \<open>
  \<^verbatim>\<open>setActiveTab(t)\<close>: React keeps the state and runs no effect when the new value is
  the old one; otherwise the effect above runs after the render.
\<close>

definition setActiveTab :: "Tab \<Rightarrow> App \<Rightarrow> App" where
  "setActiveTab t s = (if activeTab s = t then s else activeTab_effect (s\<lparr>activeTab := t\<rparr>))"

definition jumpToTime :: "number \<Rightarrow> App \<Rightarrow> App" where
  "jumpToTime time s =
     (case videoRef s of
        None \<Rightarrow> s
      | Some m \<Rightarrow> s\<lparr>videoRef := Some (m\<lparr>media_currentTime := time\<rparr>)\<rparr>)"

section \<open>Authentication\<close>

text \<open>
  \<^verbatim>\<open>handleAuth\<close>: the argument is the outcome of \<^verbatim>\<open>Storage.loginUser\<close> or
  \<^verbatim>\<open>Storage.registerUser\<close>, the message of the error thrown (\<open>Inl\<close>) or the user
  returned (\<open>Inr\<close>).
\<close>

definition handleAuth :: "string + User \<Rightarrow> App \<Rightarrow> App" where
  "handleAuth r s =
     (case r of
        Inl msg \<Rightarrow> s\<lparr>authError := msg\<rparr>
      | Inr loggedUser \<Rightarrow>
          s\<lparr>authError := [],
            user := Some loggedUser,
            projects := Storage_getProjects (user_id loggedUser) (storage s),
            view := dashboard\<rparr>)"

text \<open>
  \<^verbatim>\<open>handleLogout\<close>. The session that \<^verbatim>\<open>Storage.logoutUser()\<close> clears is not part of the
  store model.
\<close>

definition handleLogout :: "App \<Rightarrow> App" where
  "handleLogout s = s\<lparr>user := None, view := auth, currentProject := None\<rparr>"

section \<open>Project management\<close>

definition openProject :: "Project \<Rightarrow> App \<Rightarrow> App" where
  "openProject p s =
     (if truthy (editingProjectId s) then s
      else (setActiveTab original
              (s\<lparr>currentProject := Some p,
                 notes_state := Storage_getNotes (project_id p) (storage s)\<rparr>))
           \<lparr>view := project_view\<rparr>)"

section \<open>Upload: the project created for a file\<close>

text \<open>
  The object literal \<^verbatim>\<open>newProject\<close> of \<^verbatim>\<open>handleFileUpload\<close>. The results of
  \<^verbatim>\<open>crypto.randomUUID()\<close>, \<^verbatim>\<open>Date.now()\<close> and \<^verbatim>\<open>URL.createObjectURL(file)\<close>
  are inputs.
\<close>

definition newProject :: "User \<Rightarrow> File \<Rightarrow> string \<Rightarrow> number \<Rightarrow> string \<Rightarrow> Project" where
  "newProject u file uuid now url =
     \<lparr> project_id = uuid,
       userId = user_id u,
       project_name = hd (js_split (CHR ''.'') (file_name file)),
       project_createdAt = now,
       videoFile = Some file,
       videoUrl = Some url,
       isTranscribing = True,
       transcript = JArr [] \<rparr>"

text \<open>
  \<^verbatim>\<open>handleFileUpload\<close> up to its \<^verbatim>\<open>await\<close>. The second component is the
  \<^verbatim>\<open>newProject\<close> the suspended continuation holds, or \<open>None\<close> after the early return.
\<close>

definition handleFileUpload_begin ::
  "File list option \<Rightarrow> string \<Rightarrow> number \<Rightarrow> string \<Rightarrow> App \<Rightarrow> App \<times> Project option" where
  "handleFileUpload_begin files uuid now url s =
     (case files of
        None \<Rightarrow> (s, None)
      | Some [] \<Rightarrow> (s, None)
      | Some (file # _) \<Rightarrow>
          (case user s of
             None \<Rightarrow> (s, None)
           | Some u \<Rightarrow>
               (let np = newProject u file uuid now url;
                    s1 = s\<lparr>uploading := True\<rparr>;
                    s2 = s1\<lparr>storage := Storage_saveProject np (storage s1)\<rparr>;
                    s3 = s2\<lparr>projects := projects s2 @ [np]\<rparr>;
                    s4 = openProject np s3;
                    s5 = s4\<lparr>uploading := False\<rparr>
                in (s5, Some np))))"

datatype error = FileReadError | FetchError | JsonSyntaxError

text \<open>
  The rest of \<^verbatim>\<open>handleFileUpload\<close>, run when the promise of
  \<^verbatim>\<open>GeminiService.generateTranscript\<close> settles: \<open>Inr\<close> for the resolved value, \<open>Inl\<close>
  for a rejection. The state setters act on the state of that later moment.
\<close>

definition handleFileUpload_settle :: "Project \<Rightarrow> error + json \<Rightarrow> App \<Rightarrow> App" where
  "handleFileUpload_settle np r s =
     (case r of
        Inr tr \<Rightarrow>
          (let updatedProject = np\<lparr>transcript := tr, isTranscribing := False\<rparr>
           in s\<lparr>currentProject := Some updatedProject,
                projects := map (\<lambda>p. if project_id p = project_id updatedProject
                                      then updatedProject else p) (projects s),
                storage := Storage_saveProject updatedProject (storage s)\<rparr>)
      | Inl e \<Rightarrow>
          (let failedProject = np\<lparr>isTranscribing := False\<rparr>
           in s\<lparr>console := console s @ [''Transcription failed''],
                currentProject := Some failedProject,
                storage := Storage_saveProject failedProject (storage s)\<rparr>))"

definition handleStartRename :: "Project \<Rightarrow> App \<Rightarrow> App" where
  "handleStartRename p s = s\<lparr>editingProjectId := Some (project_id p), editName := project_name p\<rparr>"

definition handleSaveRename :: "App \<Rightarrow> App" where
  "handleSaveRename s =
     (if \<not> truthy (editingProjectId s) then s
      else
        (let s1 =
           (case find (\<lambda>p. Some (project_id p) = editingProjectId s) (projects s) of
              None \<Rightarrow> s
            | Some p \<Rightarrow>
                if trim (editName s) \<noteq> []
                then (let updated = p\<lparr>project_name := trim (editName s)\<rparr>
                      in s\<lparr>storage := Storage_saveProject updated (storage s),
                           projects := map (\<lambda>q. if project_id q = project_id updated
                                                 then updated else q) (projects s)\<rparr>)
                else s)
         in s1\<lparr>editingProjectId := None, editName := []\<rparr>))"

definition handleDeleteProject :: "bool \<Rightarrow> string \<Rightarrow> App \<Rightarrow> App" where
  "handleDeleteProject confirmed i s =
     (if confirmed
      then s\<lparr>storage := Storage_deleteProject i (storage s),
             projects := filter (\<lambda>p. project_id p \<noteq> i) (projects s)\<rparr>
      else s)"

section \<open>Notes\<close>

text \<open>
  \<^verbatim>\<open>addNote\<close>; the last two arguments are the results of \<^verbatim>\<open>crypto.randomUUID()\<close> and
  \<^verbatim>\<open>Date.now()\<close>. The source has no \<^verbatim>\<open>throw\<close>: the function always returns.
\<close>

definition addNote ::
  "string \<Rightarrow> number \<Rightarrow> NoteType \<Rightarrow> number option \<Rightarrow> string option \<Rightarrow> number option
     \<Rightarrow> number option \<Rightarrow> string option \<Rightarrow> string \<Rightarrow> number \<Rightarrow> App \<Rightarrow> App" where
  "addNote c time ty segmentIdx q hStart hEnd col uuid now s =
     (case currentProject s of
        None \<Rightarrow> s
      | Some cp \<Rightarrow>
          (let newNote =
                 \<lparr> note_id = uuid,
                   projectId = project_id cp,
                   note_type = ty,
                   timestamp = time,
                   transcriptSegmentIndex = segmentIdx,
                   highlightStart = hStart,
                   highlightEnd = hEnd,
                   color = col,
                   quote = q,
                   content = c,
                   note_createdAt = now \<rparr>
           in s\<lparr>storage := Storage_saveNote newNote (storage s),
                notes_state := notes_state s @ [newNote]\<rparr>))"

definition deleteNote :: "string \<Rightarrow> App \<Rightarrow> App" where
  "deleteNote i s =
     s\<lparr>storage := Storage_deleteNote i (storage s),
       notes_state := filter (\<lambda>n. note_id n \<noteq> i) (notes_state s)\<rparr>"

section \<open>The Transcription Gateway\<close>

text \<open>
  What \<^verbatim>\<open>fetch\<close> resolves with: the status and the body, \<open>None\<close> for a body that is
  not well-formed JSON (\<^verbatim>\<open>response.json()\<close> rejects on it).
\<close>

record Response =
  status :: nat
  body :: "json option"

text \<open>
  The client \<^verbatim>\<open>generateTranscript\<close>. The file reader and the network are arguments:
  each either rejects (\<open>Inl\<close>) or resolves (\<open>Inr\<close>).
\<close>

definition generateTranscript ::
  "(File \<Rightarrow> error + string) \<Rightarrow> (string \<Rightarrow> string \<Rightarrow> error + Response) \<Rightarrow> File \<Rightarrow> error + json" where
  "generateTranscript fileToBase64 fetch file =
     (case fileToBase64 file of
        Inl e \<Rightarrow> Inl e
      | Inr base64File \<Rightarrow>
          (case fetch base64File (file_type file) of
             Inl e \<Rightarrow> Inl e
           | Inr response \<Rightarrow>
               (case body response of
                  None \<Rightarrow> Inl JsonSyntaxError
                | Some data \<Rightarrow> Inr data)))"

text \<open>
  The API route \<^verbatim>\<open>handler\<close>. The model call is an argument: it throws (\<open>Inl\<close>) or
  returns the \<^verbatim>\<open>text\<close> of the answer, which may be absent; \<^verbatim>\<open>JSON.parse\<close> is an
  argument too, \<open>None\<close> where it throws.
\<close>

definition error_body :: "string \<Rightarrow> json" where
  "error_body msg = JObj [(''error'', JStr msg)]"

definition handler ::
  "(string \<Rightarrow> json option) \<Rightarrow> (string \<Rightarrow> string \<Rightarrow> error + string option)
     \<Rightarrow> string option \<Rightarrow> string option \<Rightarrow> Response" where
  "handler parse generateContent videoFileBase64 mimeType =
     (if \<not> truthy videoFileBase64 then \<lparr>status = 400, body = Some (error_body ''Missing video data'')\<rparr>
      else if \<not> truthy mimeType then \<lparr>status = 400, body = Some (error_body ''Missing video data'')\<rparr>
      else
        (case generateContent (the videoFileBase64) (the mimeType) of
           Inl e \<Rightarrow> \<lparr>status = 500, body = Some (error_body ''Transcription failed'')\<rparr>
         | Inr txt \<Rightarrow>
             if truthy txt
             then (case parse (the txt) of
                     None \<Rightarrow> \<lparr>status = 500, body = Some (error_body ''Transcription failed'')\<rparr>
                   | Some data \<Rightarrow> \<lparr>status = 200, body = Some data\<rparr>)
             else \<lparr>status = 200, body = Some (JArr [])\<rparr>))"

text \<open>The network when the request reaches the route above and its answer comes back.\<close>

definition fetch_handler ::
  "(string \<Rightarrow> json option) \<Rightarrow> (string \<Rightarrow> string \<Rightarrow> error + string option)
     \<Rightarrow> string \<Rightarrow> string \<Rightarrow> error + Response" where
  "fetch_handler parse generateContent base64File mimeType =
     Inr (handler parse generateContent (Some base64File) (Some mimeType))"

section \<open>User actions\<close>

text \<open>
  The callbacks the JSX wires to the handlers, each enabled where its control is
  rendered: the form while \<open>view = auth\<close>, the dashboard controls while
  \<open>view = dashboard\<close>, the tab bar, the note lists and the transcript view while
  \<open>view = project_view\<close>. Indices select a card of the project list. A settled upload
  is an action of the runtime: it resumes the suspended continuation at that index.
  The media element is mounted, played and unmounted by the browser, outside these
  handlers; the properties of playback below hold for every state of it.
\<close>

datatype event =
    SubmitAuth "string + User"
  | ClickLogout
  | SelectFile "File list option" string number string
  | TranscriptSettled nat "error + json"
  | ClickProject nat
  | ClickRename nat
  | TypeEditName string
  | CommitRename
  | PressEscape
  | ClickDelete nat bool
  | ClickBack
  | ClickTab Tab
  | TimeUpdate number
  | NoteListAdd string number string number
  | NoteListJump number
  | DeleteNoteClicked string
  | AddHighlight "number option" string "string option" "number option" "number option"
      "string option" string number
  | ReUpload File string

definition rename_input_shown :: "App \<Rightarrow> bool" where
  "rename_input_shown s =
     (view s = dashboard \<and>
      (case editingProjectId s of
         None \<Rightarrow> False
       | Some i \<Rightarrow> i \<in> set (map project_id (projects s))))"

fun step :: "event \<Rightarrow> App \<Rightarrow> App" where
  "step (SubmitAuth r) s = (if view s = auth then handleAuth r s else s)"
| "step ClickLogout s = (if view s = dashboard then handleLogout s else s)"
| "step (SelectFile files uuid now url) s =
     (if view s = dashboard \<and> \<not> uploading s
      then (case handleFileUpload_begin files uuid now url s of
              (s', None) \<Rightarrow> s'
            | (s', Some np) \<Rightarrow> s'\<lparr>pending := pending s' @ [np]\<rparr>)
      else s)"
| "step (TranscriptSettled k r) s =
     (if k < length (pending s)
      then handleFileUpload_settle (pending s ! k) r
             (s\<lparr>pending := take k (pending s) @ drop (Suc k) (pending s)\<rparr>)
      else s)"
| "step (ClickProject k) s =
     (if view s = dashboard \<and> k < length (projects s) then openProject (projects s ! k) s else s)"
| "step (ClickRename k) s =
     (if view s = dashboard \<and> k < length (projects s)
      then handleStartRename (projects s ! k) s else s)"
| "step (TypeEditName v) s = (if rename_input_shown s then s\<lparr>editName := v\<rparr> else s)"
| "step CommitRename s = (if rename_input_shown s then handleSaveRename s else s)"
| "step PressEscape s = (if rename_input_shown s then s\<lparr>editingProjectId := None\<rparr> else s)"
| "step (ClickDelete k confirmed) s =
     (if view s = dashboard \<and> k < length (projects s)
      then handleDeleteProject confirmed (project_id (projects s ! k)) s else s)"
| "step ClickBack s = (if view s = project_view then s\<lparr>view := dashboard\<rparr> else s)"
| "step (ClickTab t) s = (if view s = project_view then setActiveTab t s else s)"
| "step (TimeUpdate t) s =
     (if view s = project_view \<and> videoRef s \<noteq> None then s\<lparr>currentTime := t\<rparr> else s)"
| "step (NoteListAdd c time uuid now) s =
     (if view s = project_view
      then (if activeTab s = original
            then addNote c time ORIGINAL None None None None None uuid now s
            else if activeTab s = visual
            then addNote c time VIDEO None None None None None uuid now s
            else if activeTab s = audio
            then addNote c time AUDIO None None None None None uuid now s
            else s)
      else s)"
| "step (NoteListJump time) s =
     (if view s = project_view \<and> activeTab s \<noteq> verbal then jumpToTime time s else s)"
| "step (DeleteNoteClicked i) s = (if view s = project_view then deleteNote i s else s)"
| "step (AddHighlight idx c q hStart hEnd col uuid now) s =
     (if view s = project_view \<and> activeTab s = verbal
      then addNote c 0 VERBAL idx q hStart hEnd col uuid now s
      else s)"
| "step (ReUpload file url) s =
     (if view s = project_view
      then (case currentProject s of
              None \<Rightarrow> s
            | Some p \<Rightarrow>
                if truthy (videoUrl p) then s
                else s\<lparr>currentProject := Some (p\<lparr>videoUrl := Some url, videoFile := Some file\<rparr>)\<rparr>)
      else s)"

fun run :: "event list \<Rightarrow> App \<Rightarrow> App" where
  "run [] s = s"
| "run (e # es) s = run es (step e s)"

text \<open>
  Focus. The rename input of a card is rendered with \<^verbatim>\<open>autoFocus\<close> and
  \<^verbatim>\<open>onBlur={() => handleSaveRename()}\<close>, and the upload input is hidden and reached
  only through its label. A pointer action on another control of the dashboard takes
  the focus from the rename input, so the browser delivers the blur, which commits the
  rename, before the callback of the action itself. Key presses in the rename input,
  settled uploads and time updates move no focus; in the other views no rename input
  is rendered.
\<close>

fun takes_focus :: "event \<Rightarrow> bool" where
  "takes_focus ClickLogout = True"
| "takes_focus (SelectFile files uuid now url) = True"
| "takes_focus (ClickProject k) = True"
| "takes_focus (ClickRename k) = True"
| "takes_focus (ClickDelete k confirmed) = True"
| "takes_focus e = False"

definition deliver :: "event \<Rightarrow> App \<Rightarrow> App" where
  "deliver e s = (if takes_focus e then step e (step CommitRename s) else step e s)"

fun session :: "event list \<Rightarrow> App \<Rightarrow> App" where
  "session [] s = s"
| "session (e # es) s = session es (deliver e s)"

text \<open>An edit in progress has its input on the screen, and no upload is in its synchronous part.\<close>

definition edit_visible :: "App \<Rightarrow> bool" where
  "edit_visible s = ((\<not> truthy (editingProjectId s) \<or> rename_input_shown s) \<and> \<not> uploading s)"

text \<open>
  The state once the initialization effect has found the stored user \<open>u\<close>: the
  dashboard with the user's projects loaded from the store.
\<close>

definition start :: "User \<Rightarrow> Store \<Rightarrow> App" where
  "start u st =
     \<lparr> user = Some u,
       view = dashboard,
       authError = [],
       projects = Storage_getProjects (user_id u) st,
       currentProject = None,
       notes_state = [],
       uploading = False,
       editingProjectId = None,
       editName = [],
       videoRef = None,
       currentTime = 0,
       activeTab = original,
       storage = st,
       console = [],
       pending = [] \<rparr>"

section \<open>What the specification asks of a verbal note\<close>

text \<open>
  These two definitions follow the words of the specification, not the source: a
  verbal note needs its segment index, its quote and both highlight bounds, and the
  bounds must satisfy \<open>0 \<le> highlightStart \<le> highlightEnd \<le> length (transcript[idx].text)\<close>.
  \<open>spec_segment_text\<close> reads \<^verbatim>\<open>transcript[idx].text\<close>.
\<close>

definition spec_segment_text :: "json \<Rightarrow> number \<Rightarrow> string option" where
  "spec_segment_text tr i =
     (case tr of
        JArr segs \<Rightarrow>
          (if 0 \<le> i \<and> i = of_int \<lfloor>i\<rfloor> \<and> nat \<lfloor>i\<rfloor> < length segs
           then (case segs ! nat \<lfloor>i\<rfloor> of
                   JObj kvs \<Rightarrow>
                     (case map_of kvs ''text'' of
                        Some (JStr txt) \<Rightarrow> Some txt
                      | _ \<Rightarrow> None)
                 | _ \<Rightarrow> None)
           else None)
      | _ \<Rightarrow> None)"

definition spec_verbal_fields_valid ::
  "json \<Rightarrow> number option \<Rightarrow> string option \<Rightarrow> number option \<Rightarrow> number option \<Rightarrow> bool" where
  "spec_verbal_fields_valid tr segmentIdx q hStart hEnd =
     (case (segmentIdx, q, hStart, hEnd) of
        (Some i, Some _, Some a, Some b) \<Rightarrow>
          (case spec_segment_text tr i of
             None \<Rightarrow> False
           | Some txt \<Rightarrow> 0 \<le> a \<and> a \<le> b \<and> b \<le> real (length txt))
      | _ \<Rightarrow> False)"

section \<open>Verbal notes and playback positions\<close>

definition verbal_at_zero :: "Note list \<Rightarrow> bool" where
  "verbal_at_zero ns = list_all (\<lambda>n. note_type n = VERBAL \<longrightarrow> timestamp n = 0) ns"

definition verbal_notes_at_zero :: "App \<Rightarrow> bool" where
  "verbal_notes_at_zero s =
     (verbal_at_zero (notes_state s) \<and> verbal_at_zero (stored_notes (storage s)))"

section \<open>Example data\<close>

definition alice :: User where
  "alice = \<lparr>user_id = ''u-1'', email = ''alice@example.org'', user_name = ''alice''\<rparr>"

definition demo_file :: File where
  "demo_file = \<lparr>file_name = ''demo.mp4'', file_type = ''video/mp4''\<rparr>"

definition untyped_file :: File where
  "untyped_file = \<lparr>file_name = ''clip.xyz'', file_type = []\<rparr>"

definition empty_store :: Store where
  "empty_store = \<lparr>stored_projects = [], stored_notes = []\<rparr>"

definition hello_transcript :: json where
  "hello_transcript =
     JArr [JObj [(''startTime'', JNum 0), (''endTime'', JNum 2.5), (''text'', JStr ''Hello'')]]"

definition talk_project :: Project where
  "talk_project =
     \<lparr> project_id = ''p-0'', userId = ''u-1'', project_name = ''talk'', project_createdAt = 0,
       videoFile = None, videoUrl = None, isTranscribing = False, transcript = hello_transcript \<rparr>"

definition talk_store :: Store where
  "talk_store = \<lparr>stored_projects = [talk_project], stored_notes = []\<rparr>"

definition playing :: Media where
  "playing = \<lparr>media_currentTime = 12, paused = False\<rparr>"

text \<open>The upload of \<^verbatim>\<open>demo.mp4\<close> from the empty dashboard.\<close>

definition select_demo :: event where
  "select_demo = SelectFile (Some [demo_file]) ''p-1'' 1 ''blob:1''"

text \<open>The state after the upload of \<^verbatim>\<open>demo.mp4\<close> succeeded and the verbal tab was opened.\<close>

definition transcribed_state :: App where
  "transcribed_state =
     run [select_demo, TranscriptSettled 0 (Inr hello_transcript), ClickTab verbal]
       (start alice empty_store)"

text \<open>Two highlights added to it.\<close>

definition highlighted_state :: App where
  "highlighted_state =
     run [AddHighlight (Some 0) ''greeting'' (Some ''Hello'') (Some 0) (Some 5) (Some ''#ffee00'') ''n-1'' 7,
          AddHighlight (Some 0) ''vowel'' (Some ''e'') (Some 1) (Some 2) None ''n-2'' 8]
       transcribed_state"

text \<open>The dashboard while the card of the stored project is being renamed.\<close>

definition renaming_state :: App where
  "renaming_state = run [ClickRename 0] (start alice talk_store)"

text \<open>The uploaded project open, with its media element mounted and playing.\<close>

definition watching_state :: App where
  "watching_state = (run [select_demo] (start alice empty_store))\<lparr>videoRef := Some playing\<rparr>"

section \<open>Unfolding the handlers\<close>

lemmas handler_defs =
  handleAuth_def handleLogout_def
  handleFileUpload_begin_def handleFileUpload_settle_def openProject_def setActiveTab_def
  activeTab_effect_def handleStartRename_def handleSaveRename_def handleDeleteProject_def
  addNote_def deleteNote_def jumpToTime_def newProject_def pause_def rename_input_shown_def
  Storage_saveProject_def Storage_deleteProject_def Storage_getProjects_def Storage_saveNote_def
  Storage_deleteNote_def Storage_getNotes_def persisted_def start_def Let_def

lemmas example_defs =
  alice_def demo_file_def empty_store_def hello_transcript_def select_demo_def

section \<open>Strings\<close>

lemma js_split_nonempty: "js_split sep s \<noteq> []"
  by (induction s) (auto split: list.splits)

lemma hd_js_split: "hd (js_split sep s) = takeWhile (\<lambda>c. c \<noteq> sep) s"
proof (induction s)
  case Nil
  show ?case by simp
next
  case (Cons c cs)
  show ?case
  proof (cases "c = sep")
    case True
    then show ?thesis by simp
  next
    case False
    obtain w ws where sp: "js_split sep cs = w # ws"
      using js_split_nonempty [of sep cs] by (cases "js_split sep cs") auto
    with Cons False show ?thesis by simp
  qed
qed

lemma trim_eq_Nil: "trim s = [] \<longleftrightarrow> list_all isWhiteSpace s"
proof
  assume "trim s = []"
  then have a: "dropWhile isWhiteSpace (rev (dropWhile isWhiteSpace s)) = []"
    by (simp add: trim_def)
  show "list_all isWhiteSpace s"
  proof (cases "dropWhile isWhiteSpace s")
    case Nil
    then show ?thesis by (simp add: list_all_iff)
  next
    case (Cons c cs)
    then have "\<not> isWhiteSpace c"
      using hd_dropWhile [of isWhiteSpace s] by simp
    moreover from a Cons have "isWhiteSpace c"
      by simp
    ultimately show ?thesis by contradiction
  qed
next
  assume "list_all isWhiteSpace s"
  then have "dropWhile isWhiteSpace s = []"
    by (simp add: list_all_iff)
  then show "trim s = []"
    unfolding trim_def by (simp del: dropWhile_eq_Nil_conv)
qed

section \<open>The store\<close>

lemma persisted_project_id: "project_id (persisted p) = project_id p"
  by (simp add: persisted_def)

lemma find_map_replace:
  "i \<in> set (map project_id ps) \<Longrightarrow> project_id r = i \<Longrightarrow>
   find (\<lambda>q. project_id q = i) (map (\<lambda>q. if project_id q = i then r else q) ps) = Some r"
  by (induction ps) auto

lemma find_append_new:
  "i \<notin> set (map project_id ps) \<Longrightarrow> project_id r = i \<Longrightarrow>
   find (\<lambda>q. project_id q = i) (ps @ [r]) = Some r"
  by (induction ps) auto

lemma Storage_saveProject_found:
  "find (\<lambda>q. project_id q = project_id p) (stored_projects (Storage_saveProject p st))
     = Some (persisted p)"
  by (simp add: Storage_saveProject_def find_map_replace find_append_new persisted_project_id)

lemma find_Some_project_id: "find (\<lambda>p. project_id p = i) ps = Some p \<Longrightarrow> project_id p = i"
  by (induction ps) (auto split: if_splits)

lemma find_note_replace:
  "i \<in> set (map note_id ns) \<Longrightarrow> note_id r = i \<Longrightarrow>
   find (\<lambda>m. note_id m = i) (map (\<lambda>m. if note_id m = i then r else m) ns) = Some r"
  by (induction ns) auto

lemma find_note_append:
  "i \<notin> set (map note_id ns) \<Longrightarrow> note_id r = i \<Longrightarrow> find (\<lambda>m. note_id m = i) (ns @ [r]) = Some r"
  by (induction ns) auto

lemma Storage_saveNote_found:
  "find (\<lambda>m. note_id m = note_id n) (stored_notes (Storage_saveNote n st)) = Some n"
  by (simp add: Storage_saveNote_def find_note_replace find_note_append)

section \<open>Notes\<close>

text \<open>
  The claim C1 asks that \<^verbatim>\<open>addNote\<close> reject a verbal note whose required fields are
  missing or whose highlight bounds leave the segment's text. It does not: on the
  transcript with the one segment \<^verbatim>\<open>Hello\<close>, a highlight from 4 to 9 and a verbal note
  with no verbal field at all are both appended to the notes.
\<close>

theorem addNote_validates_nothing_counterexample:
  "map_option transcript (currentProject transcribed_state) = Some hello_transcript
   \<and> \<not> spec_verbal_fields_valid hello_transcript (Some 0) (Some ''Hello'') (Some 4) (Some 9)
   \<and> map highlightEnd (notes_state
        (addNote ''late'' 0 VERBAL (Some 0) (Some ''Hello'') (Some 4) (Some 9) None ''n-1'' 2
           transcribed_state)) = [Some 9]
   \<and> \<not> spec_verbal_fields_valid hello_transcript None None None None
   \<and> map note_type (notes_state
        (addNote ''bare'' 0 VERBAL None None None None None ''n-2'' 3 transcribed_state)) = [VERBAL]"
  by (simp add: transcribed_state_def handler_defs example_defs spec_verbal_fields_valid_def
      spec_segment_text_def)

text \<open>
  C1, as the code has it. \<^verbatim>\<open>addNote\<close> checks nothing but that a project is open: with
  no project open it leaves the state as it is, and with a project open it appends one
  note that carries the kind and every field exactly as passed, absent or out of range
  as they may be, and saves that note in the store under its id. It never fails.
\<close>

theorem addNote_appends_unvalidated:
  "(currentProject s = None \<longrightarrow> addNote c time ty segmentIdx q hStart hEnd col uuid now s = s)
   \<and> (\<forall>cp. currentProject s = Some cp \<longrightarrow>
         notes_state (addNote c time ty segmentIdx q hStart hEnd col uuid now s)
           = notes_state s @
               [\<lparr> note_id = uuid, projectId = project_id cp, note_type = ty, timestamp = time,
                   transcriptSegmentIndex = segmentIdx, highlightStart = hStart,
                   highlightEnd = hEnd, color = col, quote = q, content = c,
                   note_createdAt = now \<rparr>]
       \<and> find (\<lambda>m. note_id m = uuid)
            (stored_notes (storage (addNote c time ty segmentIdx q hStart hEnd col uuid now s)))
           = Some \<lparr> note_id = uuid, projectId = project_id cp, note_type = ty, timestamp = time,
                   transcriptSegmentIndex = segmentIdx, highlightStart = hStart,
                   highlightEnd = hEnd, color = col, quote = q, content = c,
                   note_createdAt = now \<rparr>)"
proof (intro conjI allI impI)
  assume "currentProject s = None"
  then show "addNote c time ty segmentIdx q hStart hEnd col uuid now s = s"
    by (simp add: addNote_def)
next
  fix cp assume cp: "currentProject s = Some cp"
  let ?n = "\<lparr> note_id = uuid, projectId = project_id cp, note_type = ty, timestamp = time,
                   transcriptSegmentIndex = segmentIdx, highlightStart = hStart,
                   highlightEnd = hEnd, color = col, quote = q, content = c,
                   note_createdAt = now \<rparr>"
  show "notes_state (addNote c time ty segmentIdx q hStart hEnd col uuid now s) = notes_state s @ [?n]"
    by (simp add: addNote_def cp Let_def)
  have "storage (addNote c time ty segmentIdx q hStart hEnd col uuid now s)
          = Storage_saveNote ?n (storage s)"
    by (simp add: addNote_def cp Let_def)
  then show "find (\<lambda>m. note_id m = uuid)
            (stored_notes (storage (addNote c time ty segmentIdx q hStart hEnd col uuid now s)))
           = Some ?n"
    using Storage_saveNote_found [of ?n "storage s"] by simp
qed

theorem addNote_appends_unvalidated_witness:
  "currentProject (start alice empty_store) = None
   \<and> addNote ''x'' 0 VERBAL None None None None None ''n-0'' 1 (start alice empty_store)
       = start alice empty_store
   \<and> currentProject transcribed_state \<noteq> None
   \<and> map highlightStart (notes_state
        (addNote ''late'' 0 VERBAL (Some 0) (Some ''Hello'') (Some 4) (Some 9) None ''n-1'' 2
           transcribed_state)) = [Some 4]"
proof -
  have a: "currentProject (start alice empty_store) = None" by (simp add: start_def)
  obtain cp where b: "currentProject transcribed_state = Some cp"
    by (simp add: transcribed_state_def handler_defs example_defs)
  have n: "notes_state transcribed_state = []"
    by (simp add: transcribed_state_def handler_defs example_defs)
  from addNote_appends_unvalidated
         [of "start alice empty_store" "''x''" 0 VERBAL None None None None None "''n-0''" 1]
       a
  have c: "addNote ''x'' 0 VERBAL None None None None None ''n-0'' 1 (start alice empty_store)
       = start alice empty_store" by blast
  from addNote_appends_unvalidated
         [of transcribed_state "''late''" 0 VERBAL "Some 0" "Some ''Hello''" "Some 4" "Some 9" None
             "''n-1''" 2] b
  have d: "map highlightStart (notes_state
        (addNote ''late'' 0 VERBAL (Some 0) (Some ''Hello'') (Some 4) (Some 9) None ''n-1'' 2
           transcribed_state)) = [Some 4]" by (simp add: n)
  from a b c d show ?thesis by simp
qed

lemma filter_absent_id: "i \<notin> note_id ` set ns \<Longrightarrow> filter (\<lambda>n. note_id n \<noteq> i) ns = ns"
  by (induction ns) auto

text \<open>
  C5. \<^verbatim>\<open>deleteNote\<close> is idempotent: deleting the same id a second time changes
  nothing; deleting an id that no note carries leaves the notes unchanged, and the whole
  state when the store has no such note either; and deleting the id of a note that no
  other note shares removes exactly that note and keeps the others in order. After a
  delete no note with that id is left, in the notes or in the store.
\<close>

theorem deleteNote_idempotent:
  "deleteNote i (deleteNote i s) = deleteNote i s
   \<and> (i \<notin> note_id ` set (notes_state s) \<longrightarrow> notes_state (deleteNote i s) = notes_state s)
   \<and> (i \<notin> note_id ` set (notes_state s) \<and> i \<notin> note_id ` set (stored_notes (storage s))
        \<longrightarrow> deleteNote i s = s)
   \<and> (notes_state s = xs @ n # ys \<and> note_id n = i
          \<and> i \<notin> note_id ` set xs \<and> i \<notin> note_id ` set ys
        \<longrightarrow> notes_state (deleteNote i s) = xs @ ys)
   \<and> i \<notin> note_id ` set (notes_state (deleteNote i s))
   \<and> i \<notin> note_id ` set (stored_notes (storage (deleteNote i s)))"
proof (intro conjI impI)
  show "deleteNote i (deleteNote i s) = deleteNote i s"
    by (simp add: deleteNote_def Storage_deleteNote_def)
next
  assume "i \<notin> note_id ` set (notes_state s)"
  then show "notes_state (deleteNote i s) = notes_state s"
    by (simp add: deleteNote_def filter_absent_id)
next
  assume "i \<notin> note_id ` set (notes_state s) \<and> i \<notin> note_id ` set (stored_notes (storage s))"
  then show "deleteNote i s = s"
    by (simp add: deleteNote_def Storage_deleteNote_def filter_absent_id)
next
  assume a: "notes_state s = xs @ n # ys \<and> note_id n = i
          \<and> i \<notin> note_id ` set xs \<and> i \<notin> note_id ` set ys"
  then have e: "notes_state s = xs @ n # ys" and f: "note_id n = i"
    and g: "i \<notin> note_id ` set xs" and h: "i \<notin> note_id ` set ys"
    by simp_all
  have "notes_state (deleteNote i s) = filter (\<lambda>m. note_id m \<noteq> i) (xs @ n # ys)"
    by (simp add: deleteNote_def e)
  also have "\<dots> = xs @ ys" by (simp add: f filter_absent_id [OF g] filter_absent_id [OF h])
  finally show "notes_state (deleteNote i s) = xs @ ys" .
next
  show "i \<notin> note_id ` set (notes_state (deleteNote i s))"
    by (auto simp: deleteNote_def)
next
  show "i \<notin> note_id ` set (stored_notes (storage (deleteNote i s)))"
    by (auto simp: deleteNote_def Storage_deleteNote_def)
qed

theorem deleteNote_idempotent_witness:
  "''n-9'' \<notin> note_id ` set (notes_state highlighted_state)
   \<and> ''n-9'' \<notin> note_id ` set (stored_notes (storage highlighted_state))
   \<and> deleteNote ''n-9'' highlighted_state = highlighted_state
   \<and> map note_id (notes_state highlighted_state) = [''n-1'', ''n-2'']
   \<and> map note_id (notes_state (deleteNote ''n-1'' highlighted_state)) = [''n-2'']
   \<and> deleteNote ''n-1'' (deleteNote ''n-1'' highlighted_state) = deleteNote ''n-1'' highlighted_state"
proof -
  have ids: "map note_id (notes_state highlighted_state) = [''n-1'', ''n-2'']"
    and st: "map note_id (stored_notes (storage highlighted_state)) = [''n-1'', ''n-2'']"
    by (simp_all add: highlighted_state_def transcribed_state_def handler_defs example_defs)
  have a: "''n-9'' \<notin> note_id ` set (notes_state highlighted_state)"
    using ids by (simp flip: set_map)
  have b: "''n-9'' \<notin> note_id ` set (stored_notes (storage highlighted_state))"
    using st by (simp flip: set_map)
  obtain n m where nm: "notes_state highlighted_state = [] @ n # [m]"
    and n: "note_id n = ''n-1''" and m: "note_id m = ''n-2''"
    using ids by (cases "notes_state highlighted_state") auto
  have d: "''n-1'' \<notin> note_id ` set []" and d': "''n-1'' \<notin> note_id ` set [m]"
    using m by simp_all
  from deleteNote_idempotent [of "''n-9''" highlighted_state] a b
  have c: "deleteNote ''n-9'' highlighted_state = highlighted_state" by blast
  from deleteNote_idempotent [of "''n-1''" highlighted_state "[]" n "[m]"] d d' nm n
  have e: "notes_state (deleteNote ''n-1'' highlighted_state) = [] @ [m]"
    and f: "deleteNote ''n-1'' (deleteNote ''n-1'' highlighted_state) = deleteNote ''n-1'' highlighted_state"
    by blast+
  from a b c ids e f m show ?thesis by simp
qed

lemma verbal_at_zero_filter: "verbal_at_zero ns \<Longrightarrow> verbal_at_zero (filter P ns)"
  by (simp add: verbal_at_zero_def list_all_iff)

lemma verbal_at_zero_snoc:
  "verbal_at_zero (ns @ [n]) = (verbal_at_zero ns \<and> (note_type n = VERBAL \<longrightarrow> timestamp n = 0))"
  by (simp add: verbal_at_zero_def)

lemma verbal_at_zero_saveNote:
  "verbal_at_zero (stored_notes st) \<Longrightarrow> (note_type n = VERBAL \<longrightarrow> timestamp n = 0) \<Longrightarrow>
   verbal_at_zero (stored_notes (Storage_saveNote n st))"
  by (auto simp: Storage_saveNote_def verbal_at_zero_def list_all_iff)

lemma stored_notes_saveProject: "stored_notes (Storage_saveProject p st) = stored_notes st"
  by (simp add: Storage_saveProject_def)

lemma stored_notes_deleteProject: "stored_notes (Storage_deleteProject i st) = stored_notes st"
  by (simp add: Storage_deleteProject_def)

lemma inv_setActiveTab: "verbal_notes_at_zero (setActiveTab t s) = verbal_notes_at_zero s"
  by (simp add: setActiveTab_def activeTab_effect_def verbal_notes_at_zero_def split: option.splits)

lemma inv_openProject: "verbal_notes_at_zero s \<Longrightarrow> verbal_notes_at_zero (openProject p s)"
  by (simp add: openProject_def setActiveTab_def activeTab_effect_def verbal_notes_at_zero_def
      Storage_getNotes_def verbal_at_zero_filter split: option.splits)

lemma inv_begin:
  "verbal_notes_at_zero s \<Longrightarrow>
   verbal_notes_at_zero (fst (handleFileUpload_begin files uuid now url s))"
proof -
  assume a: "verbal_notes_at_zero s"
  have b: "\<And>np s0. verbal_notes_at_zero s0 \<Longrightarrow>
      verbal_notes_at_zero
        ((openProject np (s0\<lparr>uploading := True, storage := Storage_saveProject np (storage s0),
                             projects := projects s0 @ [np]\<rparr>))\<lparr>uploading := False\<rparr>)"
  proof -
    fix np s0 assume "verbal_notes_at_zero s0"
    then have "verbal_notes_at_zero
       (s0\<lparr>uploading := True, storage := Storage_saveProject np (storage s0),
            projects := projects s0 @ [np]\<rparr>)"
      by (simp add: verbal_notes_at_zero_def stored_notes_saveProject)
    then have "verbal_notes_at_zero (openProject np
       (s0\<lparr>uploading := True, storage := Storage_saveProject np (storage s0),
            projects := projects s0 @ [np]\<rparr>))"
      by (rule inv_openProject)
    then show "verbal_notes_at_zero
        ((openProject np (s0\<lparr>uploading := True, storage := Storage_saveProject np (storage s0),
                             projects := projects s0 @ [np]\<rparr>))\<lparr>uploading := False\<rparr>)"
      by (simp add: verbal_notes_at_zero_def)
  qed
  show ?thesis
    using a b [OF a]
    by (simp add: handleFileUpload_begin_def Let_def split: option.splits list.splits)
qed

lemma inv_auth: "verbal_notes_at_zero s \<Longrightarrow> verbal_notes_at_zero (handleAuth r s)"
  by (simp add: handleAuth_def verbal_notes_at_zero_def split: sum.splits)

lemma inv_logout: "verbal_notes_at_zero s \<Longrightarrow> verbal_notes_at_zero (handleLogout s)"
  by (simp add: handleLogout_def verbal_notes_at_zero_def)

lemma inv_settle:
  "verbal_notes_at_zero s \<Longrightarrow> verbal_notes_at_zero (handleFileUpload_settle np r s)"
  by (simp add: handleFileUpload_settle_def verbal_notes_at_zero_def stored_notes_saveProject
      Let_def split: sum.splits)

lemma inv_saveRename: "verbal_notes_at_zero s \<Longrightarrow> verbal_notes_at_zero (handleSaveRename s)"
  by (simp add: handleSaveRename_def verbal_notes_at_zero_def stored_notes_saveProject
      Let_def split: option.splits)

lemma inv_deleteProject:
  "verbal_notes_at_zero s \<Longrightarrow> verbal_notes_at_zero (handleDeleteProject c i s)"
  by (simp add: handleDeleteProject_def verbal_notes_at_zero_def stored_notes_deleteProject)

lemma inv_addNote:
  "verbal_notes_at_zero s \<Longrightarrow> (ty = VERBAL \<longrightarrow> time = 0) \<Longrightarrow>
   verbal_notes_at_zero (addNote c time ty segmentIdx q hStart hEnd col uuid now s)"
  by (simp add: addNote_def verbal_notes_at_zero_def verbal_at_zero_snoc verbal_at_zero_saveNote
      Let_def split: option.splits)

lemma inv_deleteNote: "verbal_notes_at_zero s \<Longrightarrow> verbal_notes_at_zero (deleteNote i s)"
  by (simp add: deleteNote_def verbal_notes_at_zero_def Storage_deleteNote_def verbal_at_zero_filter)

lemma inv_jumpToTime: "verbal_notes_at_zero (jumpToTime t s) = verbal_notes_at_zero s"
  by (simp add: jumpToTime_def verbal_notes_at_zero_def split: option.splits)

lemma inv_step: "verbal_notes_at_zero s \<Longrightarrow> verbal_notes_at_zero (step e s)"
proof (cases e)
  case (SelectFile files uuid now url)
  assume a: "verbal_notes_at_zero s"
  from inv_begin [OF a, of files uuid now url] a SelectFile show ?thesis
    by (auto simp: verbal_notes_at_zero_def split: prod.splits option.splits)
next
  case (TranscriptSettled k r)
  assume a: "verbal_notes_at_zero s"
  then have "verbal_notes_at_zero (s\<lparr>pending := take k (pending s) @ drop (Suc k) (pending s)\<rparr>)"
    by (simp add: verbal_notes_at_zero_def)
  then show ?thesis using a TranscriptSettled by (simp add: inv_settle)
next
  case (ReUpload f url)
  assume "verbal_notes_at_zero s"
  with ReUpload show ?thesis
    by (simp add: verbal_notes_at_zero_def split: option.splits)
qed (simp_all add: inv_auth inv_logout inv_openProject inv_saveRename inv_deleteProject inv_addNote inv_deleteNote
      inv_jumpToTime inv_setActiveTab,
     simp_all add: verbal_notes_at_zero_def handleStartRename_def)

text \<open>
  C9. Every verbal note has timestamp 0: the transcript view is the only caller that
  passes \<^verbatim>\<open>NoteType.VERBAL\<close>, and it passes 0 as the time. If this holds of the notes
  in memory and in the store, it holds after every sequence of user actions.
\<close>

theorem verbal_notes_keep_timestamp_zero:
  "verbal_at_zero (notes_state s) \<Longrightarrow> verbal_at_zero (stored_notes (storage s)) \<Longrightarrow>
   verbal_at_zero (notes_state (run es s)) \<and> verbal_at_zero (stored_notes (storage (run es s)))"
proof (induction es arbitrary: s)
  case Nil
  then show ?case by simp
next
  case (Cons e es)
  from Cons.prems have "verbal_notes_at_zero s" by (simp add: verbal_notes_at_zero_def)
  then have "verbal_notes_at_zero (step e s)" by (rule inv_step)
  then have "verbal_at_zero (notes_state (step e s))"
    and "verbal_at_zero (stored_notes (storage (step e s)))"
    by (simp_all add: verbal_notes_at_zero_def)
  then show ?case using Cons.IH [of "step e s"] by simp
qed

theorem verbal_notes_keep_timestamp_zero_witness:
  "verbal_at_zero (notes_state (start alice empty_store))
   \<and> verbal_at_zero (stored_notes (storage (start alice empty_store)))
   \<and> map note_type (notes_state
        (run [select_demo, TranscriptSettled 0 (Inr hello_transcript),
              NoteListAdd ''posture'' 3.5 ''n-0'' 6, ClickTab verbal,
              AddHighlight (Some 0) ''greeting'' (Some ''Hello'') (Some 0) (Some 5) None ''n-1'' 7]
           (start alice empty_store))) = [ORIGINAL, VERBAL]
   \<and> map timestamp (notes_state
        (run [select_demo, TranscriptSettled 0 (Inr hello_transcript),
              NoteListAdd ''posture'' 3.5 ''n-0'' 6, ClickTab verbal,
              AddHighlight (Some 0) ''greeting'' (Some ''Hello'') (Some 0) (Some 5) None ''n-1'' 7]
           (start alice empty_store))) = [3.5, 0]
   \<and> verbal_at_zero (notes_state
        (run [select_demo, TranscriptSettled 0 (Inr hello_transcript),
              NoteListAdd ''posture'' 3.5 ''n-0'' 6, ClickTab verbal,
              AddHighlight (Some 0) ''greeting'' (Some ''Hello'') (Some 0) (Some 5) None ''n-1'' 7]
           (start alice empty_store)))"
proof -
  have a: "verbal_at_zero (notes_state (start alice empty_store))"
    and b: "verbal_at_zero (stored_notes (storage (start alice empty_store)))"
    by (simp_all add: start_def empty_store_def verbal_at_zero_def)
  show ?thesis
    using a b verbal_notes_keep_timestamp_zero [OF a b,
      of "[select_demo, TranscriptSettled 0 (Inr hello_transcript),
              NoteListAdd ''posture'' 3.5 ''n-0'' 6, ClickTab verbal,
              AddHighlight (Some 0) ''greeting'' (Some ''Hello'') (Some 0) (Some 5) None ''n-1'' 7]"]
    by (simp add: handler_defs example_defs)
qed

section \<open>Projects\<close>

text \<open>
  C10. The name of the project created for an uploaded file is the part of the file's
  name strictly before its first dot (the whole name when it has no dot):
  \<^verbatim>\<open>demo.mp4\<close> gives \<^verbatim>\<open>demo\<close>, \<^verbatim>\<open>my.talk.mp4\<close> gives \<^verbatim>\<open>my\<close>, and a name
  that starts with a dot gives the empty string.
\<close>

theorem newProject_name_before_first_dot:
  "project_name (newProject u file uuid now url)
     = takeWhile (\<lambda>c. c \<noteq> CHR ''.'') (file_name file)
   \<and> project_name (newProject u \<lparr>file_name = ''demo.mp4'', file_type = ft\<rparr> uuid now url) = ''demo''
   \<and> project_name (newProject u \<lparr>file_name = ''my.talk.mp4'', file_type = ft\<rparr> uuid now url) = ''my''
   \<and> project_name (newProject u \<lparr>file_name = CHR ''.'' # rest, file_type = ft\<rparr> uuid now url) = []"
  by (simp add: newProject_def hd_js_split)

text \<open>
  What \<^verbatim>\<open>handleFileUpload\<close> has done when it reaches its \<^verbatim>\<open>await\<close>, in any state with a
  logged-in user: the guard of \<^verbatim>\<open>openProject\<close> decides whether the project is opened.
\<close>

lemma handleFileUpload_begin_effect:
  assumes us: "user s = Some u"
  shows "snd (handleFileUpload_begin (Some (file # rest)) uuid now url s)
           = Some (newProject u file uuid now url)
       \<and> isTranscribing (newProject u file uuid now url)
       \<and> transcript (newProject u file uuid now url) = JArr []
       \<and> projects (fst (handleFileUpload_begin (Some (file # rest)) uuid now url s))
           = projects s @ [newProject u file uuid now url]
       \<and> find (\<lambda>q. project_id q = uuid)
            (stored_projects (storage (fst (handleFileUpload_begin (Some (file # rest)) uuid now url s))))
           = Some (persisted (newProject u file uuid now url))
       \<and> isTranscribing (persisted (newProject u file uuid now url))
       \<and> transcript (persisted (newProject u file uuid now url)) = JArr []
       \<and> (\<not> truthy (editingProjectId s) \<longrightarrow>
            currentProject (fst (handleFileUpload_begin (Some (file # rest)) uuid now url s))
              = Some (newProject u file uuid now url)
          \<and> view (fst (handleFileUpload_begin (Some (file # rest)) uuid now url s)) = project_view)
       \<and> (truthy (editingProjectId s) \<longrightarrow>
            currentProject (fst (handleFileUpload_begin (Some (file # rest)) uuid now url s))
              = currentProject s
          \<and> view (fst (handleFileUpload_begin (Some (file # rest)) uuid now url s)) = view s)"
proof -
  let ?np = "newProject u file uuid now url"
  have id: "project_id ?np = uuid" by (simp add: newProject_def)
  have found: "find (\<lambda>q. project_id q = uuid) (stored_projects (Storage_saveProject ?np (storage s)))
     = Some (persisted ?np)"
    using Storage_saveProject_found [of ?np "storage s"] by (simp add: id)
  have st: "storage (fst (handleFileUpload_begin (Some (file # rest)) uuid now url s))
     = Storage_saveProject ?np (storage s)"
    by (simp add: handleFileUpload_begin_def us Let_def openProject_def setActiveTab_def
        activeTab_effect_def split: option.splits)
  show ?thesis
    apply (simp only: st found)
    apply (simp add: handleFileUpload_begin_def us Let_def openProject_def setActiveTab_def
        activeTab_effect_def persisted_def split: option.splits)
    apply (simp add: newProject_def)
    done
qed

lemma handleFileUpload_begin_pending:
  "pending (fst (handleFileUpload_begin files uuid now url s)) = pending s"
  by (simp add: handleFileUpload_begin_def openProject_def setActiveTab_def activeTab_effect_def
      Let_def split: option.splits list.splits)

lemma handleSaveRename_ends_edit: "\<not> truthy (editingProjectId (handleSaveRename s))"
  by (simp add: handleSaveRename_def Let_def)

lemma handleSaveRename_frame:
  "view (handleSaveRename s) = view s \<and> user (handleSaveRename s) = user s
   \<and> uploading (handleSaveRename s) = uploading s \<and> pending (handleSaveRename s) = pending s"
  by (simp add: handleSaveRename_def Let_def split: option.splits)

lemma blur_ends_edit:
  assumes "edit_visible s"
  shows "\<not> truthy (editingProjectId (step CommitRename s)) \<and> \<not> uploading (step CommitRename s)
    \<and> view (step CommitRename s) = view s \<and> user (step CommitRename s) = user s
    \<and> pending (step CommitRename s) = pending s"
  using assms by (auto simp: edit_visible_def handleSaveRename_ends_edit handleSaveRename_frame)

lemma no_edit_visible: "\<not> truthy (editingProjectId s) \<Longrightarrow> \<not> uploading s \<Longrightarrow> edit_visible s"
  by (simp add: edit_visible_def)

lemma openProject_no_edit:
  "\<not> truthy (editingProjectId s) \<Longrightarrow>
   editingProjectId (openProject p s) = editingProjectId s \<and> uploading (openProject p s) = uploading s"
  by (simp add: openProject_def setActiveTab_def activeTab_effect_def split: option.splits)

lemma focus_step_edit_visible:
  assumes ne: "\<not> truthy (editingProjectId s)" and nu: "\<not> uploading s" and tf: "takes_focus e"
  shows "edit_visible (step e s)"
proof (cases e)
  case ClickLogout
  with ne nu show ?thesis by (simp add: edit_visible_def handleLogout_def)
next
  case (SelectFile files uuid now url)
  with ne nu show ?thesis
    by (simp add: edit_visible_def handleFileUpload_begin_def openProject_def setActiveTab_def
        activeTab_effect_def Let_def split: option.splits list.splits)
next
  case (ClickProject k)
  with ne nu show ?thesis
    by (simp add: edit_visible_def openProject_def setActiveTab_def activeTab_effect_def
        split: option.splits)
next
  case (ClickRename k)
  with ne nu show ?thesis
    by (simp add: edit_visible_def handleStartRename_def rename_input_shown_def)
next
  case (ClickDelete k c)
  with ne nu show ?thesis by (simp add: edit_visible_def handleDeleteProject_def)
qed (use tf in simp_all)

lemma map_replace_ids:
  "project_id r = i \<Longrightarrow> map project_id (map (\<lambda>p. if project_id p = i then r else p) ps) = map project_id ps"
  by (induction ps) auto

lemma edit_visible_cong:
  "view s' = view s \<Longrightarrow> editingProjectId s' = editingProjectId s \<Longrightarrow> uploading s' = uploading s \<Longrightarrow>
   map project_id (projects s') = map project_id (projects s) \<Longrightarrow> edit_visible s' = edit_visible s"
  by (simp only: edit_visible_def rename_input_shown_def)

lemma settle_frame:
  "view (handleFileUpload_settle np r s) = view s
   \<and> editingProjectId (handleFileUpload_settle np r s) = editingProjectId s
   \<and> uploading (handleFileUpload_settle np r s) = uploading s
   \<and> map project_id (projects (handleFileUpload_settle np r s)) = map project_id (projects s)"
  by (cases r) (simp_all add: handleFileUpload_settle_def Let_def map_replace_ids del: map_map)

lemma settle_edit_visible: "edit_visible s \<Longrightarrow> edit_visible (handleFileUpload_settle np r s)"
  using settle_frame [of np r s] edit_visible_cong [of "handleFileUpload_settle np r s" s] by simp

lemma addNote_frame:
  "view (addNote c time ty idx q hs he col uuid now s) = view s
   \<and> editingProjectId (addNote c time ty idx q hs he col uuid now s) = editingProjectId s
   \<and> uploading (addNote c time ty idx q hs he col uuid now s) = uploading s
   \<and> projects (addNote c time ty idx q hs he col uuid now s) = projects s"
  by (simp add: addNote_def Let_def split: option.splits)

lemma plain_step_edit_visible:
  assumes ev: "edit_visible s" and tf: "\<not> takes_focus e"
  shows "edit_visible (step e s)"
proof (cases e)
  case (SubmitAuth r)
  with ev show ?thesis
    by (cases r) (auto simp: edit_visible_def rename_input_shown_def handleAuth_def)
next
  case (TranscriptSettled k r)
  have "edit_visible (s\<lparr>pending := take k (pending s) @ drop (Suc k) (pending s)\<rparr>) = edit_visible s"
    by (rule edit_visible_cong) simp_all
  with ev TranscriptSettled show ?thesis by (simp add: settle_edit_visible)
next
  case CommitRename
  with ev show ?thesis
    by (auto simp: edit_visible_def handleSaveRename_ends_edit handleSaveRename_frame)
next
  case PressEscape
  with ev show ?thesis by (auto simp: edit_visible_def)
next
  case ClickBack
  with ev show ?thesis by (auto simp: edit_visible_def rename_input_shown_def)
next
  case (ReUpload f url)
  have "edit_visible (step (ReUpload f url) s) = edit_visible s"
    by (rule edit_visible_cong) (simp_all split: option.splits)
  with ev ReUpload show ?thesis by simp
next
  case (TypeEditName v)
  have "edit_visible (step (TypeEditName v) s) = edit_visible s"
    by (rule edit_visible_cong) simp_all
  with ev TypeEditName show ?thesis by simp
next
  case (ClickTab t)
  have "edit_visible (step (ClickTab t) s) = edit_visible s"
    by (rule edit_visible_cong)
       (simp_all add: setActiveTab_def activeTab_effect_def split: option.splits)
  with ev ClickTab show ?thesis by simp
next
  case (TimeUpdate t)
  have "edit_visible (step (TimeUpdate t) s) = edit_visible s"
    by (rule edit_visible_cong) simp_all
  with ev TimeUpdate show ?thesis by simp
next
  case (NoteListAdd c time uuid now)
  have "edit_visible (step (NoteListAdd c time uuid now) s) = edit_visible s"
    by (rule edit_visible_cong) (simp_all add: addNote_frame)
  with ev NoteListAdd show ?thesis by simp
next
  case (NoteListJump time)
  have "edit_visible (step (NoteListJump time) s) = edit_visible s"
    by (rule edit_visible_cong) (simp_all add: jumpToTime_def split: option.splits)
  with ev NoteListJump show ?thesis by simp
next
  case (DeleteNoteClicked i)
  have "edit_visible (step (DeleteNoteClicked i) s) = edit_visible s"
    by (rule edit_visible_cong) (simp_all add: deleteNote_def)
  with ev DeleteNoteClicked show ?thesis by simp
next
  case (AddHighlight idx c q hs he col uuid now)
  have "edit_visible (step (AddHighlight idx c q hs he col uuid now) s) = edit_visible s"
    by (rule edit_visible_cong) (simp_all add: addNote_frame)
  with ev AddHighlight show ?thesis by simp
qed (use tf in simp_all)

lemma deliver_edit_visible: "edit_visible s \<Longrightarrow> edit_visible (deliver e s)"
proof (cases "takes_focus e")
  case True
  assume ev: "edit_visible s"
  from blur_ends_edit [OF ev] True show ?thesis
    by (simp add: deliver_def focus_step_edit_visible del: step.simps)
next
  case False
  assume "edit_visible s"
  with False show ?thesis by (simp add: deliver_def plain_step_edit_visible del: step.simps)
qed

lemma session_edit_visible: "edit_visible s \<Longrightarrow> edit_visible (session es s)"
  by (induction es arbitrary: s) (simp_all add: deliver_edit_visible)

text \<open>
  C3. Start from any state with the initial values of the edit and upload hooks (no
  project being renamed, no upload in its synchronous part) and let the user act in any
  way. Whenever the dashboard is then on the screen and a user is logged in, a file
  selection creates a project with \<^verbatim>\<open>isTranscribing\<close> true and an empty transcript,
  makes it the current project in the project view, appends it to the project list and
  saves it in the store, while the gateway call is still outstanding (its continuation
  joins the suspended uploads). A rename in progress does not prevent this: the blur
  that the selection causes ends it before the handler runs.
\<close>

theorem upload_creates_lists_and_opens:
  assumes init: "editingProjectId s0 = None" "\<not> uploading s0"
    and dash: "view (session es s0) = dashboard"
    and usr: "user (session es s0) = Some u"
  shows "isTranscribing (newProject u f uuid now url)
       \<and> transcript (newProject u f uuid now url) = JArr []
       \<and> currentProject (deliver (SelectFile (Some (f # rest)) uuid now url) (session es s0))
           = Some (newProject u f uuid now url)
       \<and> view (deliver (SelectFile (Some (f # rest)) uuid now url) (session es s0))
           = project_view
       \<and> projects (deliver (SelectFile (Some (f # rest)) uuid now url) (session es s0))
           = projects (step CommitRename (session es s0)) @ [newProject u f uuid now url]
       \<and> find (\<lambda>q. project_id q = uuid)
            (stored_projects (storage
               (deliver (SelectFile (Some (f # rest)) uuid now url) (session es s0))))
           = Some (persisted (newProject u f uuid now url))
       \<and> isTranscribing (persisted (newProject u f uuid now url))
       \<and> transcript (persisted (newProject u f uuid now url)) = JArr []
       \<and> pending (deliver (SelectFile (Some (f # rest)) uuid now url) (session es s0))
           = pending (session es s0) @ [newProject u f uuid now url]"
proof -
  let ?s = "session es s0"
  let ?b = "step CommitRename ?s"
  let ?np = "newProject u f uuid now url"
  let ?h = "handleFileUpload_begin (Some (f # rest)) uuid now url ?b"
  have "edit_visible s0" using init by (simp add: no_edit_visible)
  then have "edit_visible ?s" by (rule session_edit_visible)
  from blur_ends_edit [OF this]
  have ne: "\<not> truthy (editingProjectId ?b)" and nu: "\<not> uploading ?b"
    and vb: "view ?b = dashboard" and ub: "user ?b = Some u" and pb: "pending ?b = pending ?s"
    using dash usr by simp_all
  note eff = handleFileUpload_begin_effect [OF ub, of f rest uuid now url]
  from eff have sn: "snd ?h = Some ?np" by (rule conjunct1)
  have dl: "deliver (SelectFile (Some (f # rest)) uuid now url) ?s
              = (fst ?h)\<lparr>pending := pending (fst ?h) @ [?np]\<rparr>"
    using sn vb nu by (cases ?h) (simp add: deliver_def)
  have pd: "pending (fst ?h) = pending ?s"
    using handleFileUpload_begin_pending [of "Some (f # rest)" uuid now url ?b] pb by simp
  show ?thesis
    unfolding dl using eff ne pd by simp
qed

theorem upload_creates_lists_and_opens_witness:
  "editingProjectId (start alice talk_store) = None
   \<and> \<not> uploading (start alice talk_store)
   \<and> view (session [ClickRename 0] (start alice talk_store)) = dashboard
   \<and> user (session [ClickRename 0] (start alice talk_store)) = Some alice
   \<and> editingProjectId (session [ClickRename 0] (start alice talk_store)) = Some ''p-0''
   \<and> view (deliver select_demo (session [ClickRename 0] (start alice talk_store))) = project_view
   \<and> map_option project_name
        (currentProject (deliver select_demo (session [ClickRename 0] (start alice talk_store))))
       = Some ''demo''
   \<and> map project_id
        (projects (deliver select_demo (session [ClickRename 0] (start alice talk_store))))
       = [''p-0'', ''p-1'']
   \<and> map project_id
        (pending (deliver select_demo (session [ClickRename 0] (start alice talk_store))))
       = [''p-1'']"
proof -
  let ?s = "session [ClickRename 0] (start alice talk_store)"
  have a: "editingProjectId (start alice talk_store) = None"
    and b: "\<not> uploading (start alice talk_store)"
    by (simp_all add: start_def)
  have c: "view ?s = dashboard" and d: "user ?s = Some alice"
    and e: "editingProjectId ?s = Some ''p-0''" and p: "pending ?s = []"
    by (simp_all add: deliver_def talk_store_def talk_project_def handler_defs example_defs)
  have f: "map project_id (projects (step CommitRename ?s)) = [''p-0'']"
    by (simp add: deliver_def talk_store_def talk_project_def trim_def isWhiteSpace_def
        handler_defs example_defs)
  have g: "project_name (newProject alice demo_file ''p-1'' 1 ''blob:1'') = ''demo''"
    and h: "project_id (newProject alice demo_file ''p-1'' 1 ''blob:1'') = ''p-1''"
    by (simp_all add: newProject_def demo_file_def)
  from upload_creates_lists_and_opens
         [OF a b c d, where f = demo_file and rest = "[]" and uuid = "''p-1''" and now = 1
            and url = "''blob:1''"]
       a b c d e f g h p
  show ?thesis by (simp add: select_demo_def del: session.simps step.simps)
qed

lemma handleFileUpload_settle_rejected:
  "projects (handleFileUpload_settle np (Inl e) s) = projects s
   \<and> currentProject (handleFileUpload_settle np (Inl e) s) = Some (np\<lparr>isTranscribing := False\<rparr>)
   \<and> storage (handleFileUpload_settle np (Inl e) s)
       = Storage_saveProject (np\<lparr>isTranscribing := False\<rparr>) (storage s)
   \<and> console (handleFileUpload_settle np (Inl e) s) = console s @ [''Transcription failed'']"
  by (simp add: handleFileUpload_settle_def Let_def)

text \<open>
  C2. On a rejected transcription the handler logs one line, sets the current project
  and the stored project to not transcribing with the empty transcript, and raises
  nothing. It does not update the project list, which the success path does: the card
  keeps \<^verbatim>\<open>isTranscribing\<close> true, and opening the project from the dashboard again
  makes the current project transcribing once more.
\<close>

theorem rejected_upload_leaves_list_transcribing:
  "map_option isTranscribing
     (currentProject (run [select_demo, TranscriptSettled 0 (Inl FetchError)] (start alice empty_store)))
     = Some False
   \<and> map_option transcript
     (currentProject (run [select_demo, TranscriptSettled 0 (Inl FetchError)] (start alice empty_store)))
     = Some (JArr [])
   \<and> map isTranscribing
     (stored_projects (storage
        (run [select_demo, TranscriptSettled 0 (Inl FetchError)] (start alice empty_store))))
     = [False]
   \<and> console (run [select_demo, TranscriptSettled 0 (Inl FetchError)] (start alice empty_store))
     = [''Transcription failed'']
   \<and> map isTranscribing
     (projects (run [select_demo, TranscriptSettled 0 (Inl FetchError)] (start alice empty_store)))
     = [True]
   \<and> map_option isTranscribing
     (currentProject
        (run [select_demo, TranscriptSettled 0 (Inl FetchError), ClickBack, ClickProject 0]
           (start alice empty_store)))
     = Some True
   \<and> map isTranscribing
     (projects (run [select_demo, TranscriptSettled 0 (Inr hello_transcript)] (start alice empty_store)))
     = [False]"
  by (simp add: handler_defs example_defs)

text \<open>
  C6. Committing a rename of a project that is being edited: a name of white space
  only (or the empty name) changes neither the project list nor the store; any other
  name is trimmed, saved in the store and written to the list; in both cases the edit
  ends. The id is not empty, as every id from \<^verbatim>\<open>crypto.randomUUID()\<close> is.
\<close>

theorem handleSaveRename_commit:
  assumes ed: "editingProjectId s = Some i" and ne: "i \<noteq> []"
    and fd: "find (\<lambda>p. project_id p = i) (projects s) = Some p"
  shows "(list_all isWhiteSpace (editName s) \<longrightarrow>
            projects (handleSaveRename s) = projects s
          \<and> storage (handleSaveRename s) = storage s)
       \<and> (\<not> list_all isWhiteSpace (editName s) \<longrightarrow>
            trim (editName s) \<noteq> []
          \<and> storage (handleSaveRename s)
              = Storage_saveProject (p\<lparr>project_name := trim (editName s)\<rparr>) (storage s)
          \<and> find (\<lambda>q. project_id q = i) (stored_projects (storage (handleSaveRename s)))
              = Some (persisted (p\<lparr>project_name := trim (editName s)\<rparr>))
          \<and> projects (handleSaveRename s)
              = map (\<lambda>q. if project_id q = i then p\<lparr>project_name := trim (editName s)\<rparr> else q)
                  (projects s))
       \<and> editingProjectId (handleSaveRename s) = None
       \<and> editName (handleSaveRename s) = []"
proof -
  have pi: "project_id p = i" using fd by (rule find_Some_project_id)
  have fd': "find (\<lambda>p. Some (project_id p) = editingProjectId s) (projects s) = Some p"
    using fd by (simp add: ed)
  have tr: "truthy (editingProjectId s)" by (simp add: ed ne)
  have blank: "list_all isWhiteSpace (editName s) \<Longrightarrow>
     handleSaveRename s = s\<lparr>editingProjectId := None, editName := []\<rparr>"
    by (simp add: handleSaveRename_def tr fd' trim_eq_Nil)
  have named: "\<not> list_all isWhiteSpace (editName s) \<Longrightarrow>
     handleSaveRename s =
       s\<lparr>storage := Storage_saveProject (p\<lparr>project_name := trim (editName s)\<rparr>) (storage s),
         projects := map (\<lambda>q. if project_id q = i then p\<lparr>project_name := trim (editName s)\<rparr> else q)
                       (projects s),
         editingProjectId := None, editName := []\<rparr>"
    by (simp add: handleSaveRename_def tr fd' trim_eq_Nil pi Let_def)
  have found: "find (\<lambda>q. project_id q = i)
       (stored_projects (Storage_saveProject (p\<lparr>project_name := trim (editName s)\<rparr>) (storage s)))
     = Some (persisted (p\<lparr>project_name := trim (editName s)\<rparr>))"
    using Storage_saveProject_found [of "p\<lparr>project_name := trim (editName s)\<rparr>" "storage s"]
    by (simp add: pi)
  show ?thesis
  proof (cases "list_all isWhiteSpace (editName s)")
    case True
    then show ?thesis by (simp add: blank)
  next
    case False
    then show ?thesis by (simp add: named found trim_eq_Nil)
  qed
qed

theorem handleSaveRename_commit_witness:
  "editingProjectId renaming_state = Some ''p-0''
   \<and> find (\<lambda>p. project_id p = ''p-0'') (projects renaming_state) = Some talk_project
   \<and> list_all isWhiteSpace (editName (step (TypeEditName ''   '') renaming_state))
   \<and> map project_name (projects (handleSaveRename (step (TypeEditName ''   '') renaming_state)))
       = [''talk'']
   \<and> editingProjectId (handleSaveRename (step (TypeEditName ''   '') renaming_state)) = None
   \<and> \<not> list_all isWhiteSpace (editName (step (TypeEditName '' keynote  '') renaming_state))
   \<and> map project_name (projects (handleSaveRename (step (TypeEditName '' keynote  '') renaming_state)))
       = [''keynote'']
   \<and> map project_name
        (stored_projects (storage (handleSaveRename (step (TypeEditName '' keynote  '') renaming_state))))
       = [''keynote'']
   \<and> editingProjectId (handleSaveRename (step (TypeEditName '' keynote  '') renaming_state)) = None"
proof -
  have shown: "rename_input_shown renaming_state"
    by (simp add: renaming_state_def talk_store_def talk_project_def handler_defs example_defs)
  have s1: "step (TypeEditName ''   '') renaming_state = renaming_state\<lparr>editName := ''   ''\<rparr>"
    and s2: "step (TypeEditName '' keynote  '') renaming_state
               = renaming_state\<lparr>editName := '' keynote  ''\<rparr>"
    by (simp_all add: shown)
  have ed: "editingProjectId renaming_state = Some ''p-0''"
    and fd: "find (\<lambda>p. project_id p = ''p-0'') (projects renaming_state) = Some talk_project"
    and ps: "projects renaming_state = [talk_project]"
    and st: "storage renaming_state = talk_store"
    by (simp_all add: renaming_state_def talk_store_def talk_project_def handler_defs example_defs)
  have w1: "list_all isWhiteSpace ''   ''" by (simp add: isWhiteSpace_def)
  have w2: "\<not> list_all isWhiteSpace '' keynote  ''" by (simp add: isWhiteSpace_def)
  have t2: "trim '' keynote  '' = ''keynote''" by (simp add: trim_def isWhiteSpace_def)
  have ne: "''p-0'' \<noteq> []" by simp
  from handleSaveRename_commit [of "renaming_state\<lparr>editName := ''   ''\<rparr>" "''p-0''" talk_project]
       ed fd w1 ps
  have r1: "projects (handleSaveRename (renaming_state\<lparr>editName := ''   ''\<rparr>)) = [talk_project]"
    and r2: "editingProjectId (handleSaveRename (renaming_state\<lparr>editName := ''   ''\<rparr>)) = None"
    by simp_all
  from handleSaveRename_commit [of "renaming_state\<lparr>editName := '' keynote  ''\<rparr>" "''p-0''" talk_project]
       ed fd w2 t2 ps st
  have r3: "projects (handleSaveRename (renaming_state\<lparr>editName := '' keynote  ''\<rparr>))
              = [talk_project\<lparr>project_name := ''keynote''\<rparr>]"
    and r4: "storage (handleSaveRename (renaming_state\<lparr>editName := '' keynote  ''\<rparr>))
              = Storage_saveProject (talk_project\<lparr>project_name := ''keynote''\<rparr>) talk_store"
    and r5: "editingProjectId (handleSaveRename (renaming_state\<lparr>editName := '' keynote  ''\<rparr>)) = None"
    by (simp_all add: talk_project_def)
  have r6: "map project_name (stored_projects
       (Storage_saveProject (talk_project\<lparr>project_name := ''keynote''\<rparr>) talk_store)) = [''keynote'']"
    by (simp add: Storage_saveProject_def persisted_def talk_project_def talk_store_def)
  show ?thesis
    unfolding s1 s2
    by (simp add: ed fd r1 r2 r3 r4 r5 r6 isWhiteSpace_def) (simp add: talk_project_def)
qed

section \<open>Playback\<close>

lemma step_activeTab_cases:
  "activeTab (step e s) = activeTab s \<or> activeTab (step e s) = original
    \<or> (\<exists>t. e = ClickTab t \<and> view s = project_view)"
  apply (cases e)
  apply (auto simp: handleAuth_def handleLogout_def handleFileUpload_begin_def openProject_def setActiveTab_def activeTab_effect_def
     handleFileUpload_settle_def handleStartRename_def handleSaveRename_def handleDeleteProject_def
     addNote_def deleteNote_def jumpToTime_def Let_def
     split: option.splits list.splits sum.splits if_splits prod.splits)
  done

text \<open>
  C7. Whatever the user action, if it takes the active tab from another tab to the
  verbal tab, the media element (when one is mounted) is paused afterwards, whatever its
  state before, and its position is kept.
\<close>

theorem entering_verbal_pauses:
  assumes "activeTab s \<noteq> verbal" and "activeTab (step e s) = verbal"
  shows "videoRef (step e s) = map_option (\<lambda>m. m\<lparr>paused := True\<rparr>) (videoRef s)"
proof -
  from step_activeTab_cases [of e s] assms
  obtain t where e: "e = ClickTab t" and v: "view s = project_view" by auto
  with assms have "t = verbal"
    by (auto simp: setActiveTab_def activeTab_effect_def split: if_splits option.splits)
  with e v assms show ?thesis
    by (cases "videoRef s") (simp_all add: setActiveTab_def activeTab_effect_def pause_def)
qed

theorem entering_verbal_pauses_witness:
  "activeTab watching_state \<noteq> verbal
   \<and> videoRef watching_state = Some \<lparr>media_currentTime = 12, paused = False\<rparr>
   \<and> activeTab (step (ClickTab verbal) watching_state) = verbal
   \<and> videoRef (step (ClickTab verbal) watching_state)
       = Some \<lparr>media_currentTime = 12, paused = True\<rparr>"
proof -
  have a: "activeTab watching_state \<noteq> verbal"
    and v: "videoRef watching_state = Some \<lparr>media_currentTime = 12, paused = False\<rparr>"
    by (simp_all add: watching_state_def playing_def handler_defs example_defs)
  have b: "activeTab (step (ClickTab verbal) watching_state) = verbal"
    by (simp add: watching_state_def playing_def handler_defs example_defs)
  from entering_verbal_pauses [OF a b] a b v show ?thesis by simp
qed

text \<open>
  C8. \<^verbatim>\<open>jumpToTime\<close> sets the position of the mounted media element to the given time,
  keeps its paused flag, and changes nothing else in the state; with no element
  mounted it changes nothing.
\<close>

theorem jumpToTime_seeks_only:
  "videoRef (jumpToTime time s) = map_option (\<lambda>m. m\<lparr>media_currentTime := time\<rparr>) (videoRef s)
   \<and> map_option paused (videoRef (jumpToTime time s)) = map_option paused (videoRef s)
   \<and> jumpToTime time s = s\<lparr>videoRef := videoRef (jumpToTime time s)\<rparr>"
  by (cases "videoRef s") (simp_all add: jumpToTime_def)

section \<open>The gateway\<close>

lemma generateTranscript_ignores_status:
  "generateTranscript fileToBase64 (\<lambda>b m. Inr \<lparr>status = n, body = d\<rparr>) file
     = generateTranscript fileToBase64 (\<lambda>b m. Inr \<lparr>status = n', body = d\<rparr>) file"
  by (simp add: generateTranscript_def split: sum.splits)

text \<open>
  C4. \<^verbatim>\<open>generateTranscript\<close> never looks at the status: the body of a 500 or 400
  answer is returned as the transcript, and the upload handler stores it as the
  project's transcript. The API route answers 400 for a file whose MIME type is empty.
  Only a body that is not JSON makes the call reject.
\<close>

theorem generateTranscript_returns_error_body:
  "generateTranscript (\<lambda>f. Inr ''AAAA'')
      (\<lambda>b m. Inr \<lparr>status = 500, body = Some (error_body ''Transcription failed'')\<rparr>) demo_file
     = Inr (JObj [(''error'', JStr ''Transcription failed'')])
   \<and> status (handler parse generateContent (Some ''AAAA'') (Some (file_type untyped_file))) = 400
   \<and> generateTranscript (\<lambda>f. Inr ''AAAA'') (fetch_handler parse generateContent) untyped_file
     = Inr (JObj [(''error'', JStr ''Missing video data'')])
   \<and> map_option transcript
       (currentProject
          (run [SelectFile (Some [untyped_file]) ''p-1'' 1 ''blob:1'',
                TranscriptSettled 0
                  (generateTranscript (\<lambda>f. Inr ''AAAA'') (fetch_handler parse generateContent)
                     untyped_file)]
             (start alice empty_store)))
     = Some (JObj [(''error'', JStr ''Missing video data'')])
   \<and> generateTranscript (\<lambda>f. Inr ''AAAA'') (\<lambda>b m. Inr \<lparr>status = 200, body = None\<rparr>) demo_file
     = Inl JsonSyntaxError"
  by (simp add: generateTranscript_def fetch_handler_def handler_def error_body_def
      untyped_file_def handler_defs example_defs)

end
